theory Spec2Isabelle
  imports Complex_Main "HOL-Library.Multiset"
begin

section \<open>The unit cost scraper: constants, exceptions and observable events\<close>

text \<open>
  The script \<^verbatim>\<open>warthunder_unit_cost_scraper.py\<close> is embedded function by function.
  Python's \<^verbatim>\<open>str\<close> is a \<^typ>\<open>string\<close>; a \<^typ>\<open>char\<close> stands for the code point of the
  same number, so the model covers text whose code points are below 256.  Python's
  unbounded \<^verbatim>\<open>int\<close> is \<^typ>\<open>int\<close>.  A function of the script that talks to the outside
  returns its value together with the list of events it performed, in order; a raised
  exception is the \<open>Inl\<close> branch of the value.
\<close>

definition BASE_URL :: string where
  "BASE_URL = ''https://wiki.warthunder.com''"

definition REQUEST_DELAY :: rat where
  "REQUEST_DELAY = 3 / 2"

definition MAX_RETRIES :: nat where
  "MAX_RETRIES = 5"

definition CONCURRENT_WORKERS :: nat where
  "CONCURRENT_WORKERS = 3"

text \<open>
  Exceptions.  \<open>RequestException\<close> stands for \<^verbatim>\<open>requests.RequestException\<close> and all its
  subclasses (timeouts, connection errors, invalid URLs): what the \<^verbatim>\<open>requests\<close> library
  raises for a transport-level failure.  \<open>ValueError\<close> is what \<^verbatim>\<open>int()\<close> raises.
  \<open>OtherException\<close> is any exception that is neither.
\<close>

datatype exn = RequestException string | ValueError string | OtherException string

text \<open>What one call of \<^verbatim>\<open>session.get\<close> does: it returns a response (status code and
  body text) or raises.\<close>

datatype outcome = Response int string | Raises exn

text \<open>
  The session is the script's only door to the network.  Inside one call of the fetcher
  the model asks it for the outcome of the request made in loop iteration \<open>attempt\<close>
  for \<open>url\<close>; the outcomes are arbitrary, so every behaviour of the remote host is covered.
\<close>

type_synonym session = "string \<Rightarrow> nat \<Rightarrow> outcome"

text \<open>The lines the script prints, one constructor per \<^verbatim>\<open>print\<close> statement, carrying the
  values the f-string interpolates.\<close>

datatype log_line =
    WarnBackoff int string int
  | ErrorUnexpectedStatus int string
  | ErrorException string string nat
  | StepFetchingUnitUrls string
  | ErrorTechTreePage string
  | InfoFoundUnits nat string
  | ErrorUnitPage string
  | InfoProcessingUnit nat nat string int int int
  | StepInitializing
  | WarnHomepage int
  | StepTotalUnits nat
  | ResultTotal int

datatype event =
    Get string int
  | Sleep rat
  | Print log_line

type_synonym 'a io = "(exn + 'a) \<times> event list"

fun is_Get :: "event \<Rightarrow> bool" where
  "is_Get (Get url timeout) = True"
| "is_Get _ = False"

text \<open>The number of requests in a trace, and the delays slept in it, in order.\<close>

definition attempts :: "event list \<Rightarrow> nat" where
  "attempts evs = length (filter is_Get evs)"

fun sleeps :: "event list \<Rightarrow> rat list" where
  "sleeps [] = []"
| "sleeps (Sleep d # evs) = d # sleeps evs"
| "sleeps (_ # evs) = sleeps evs"

section \<open>The resilient fetcher\<close>

text \<open>
  \<^verbatim>\<open>fetch_with_retries(session, url)\<close>: the loop \<^verbatim>\<open>for attempt in range(MAX_RETRIES)\<close> is
  a recursion over the list of attempt numbers still to run, with the local variable
  \<^verbatim>\<open>backoff\<close> as an argument.  Falling out of the loop, or \<^verbatim>\<open>break\<close>, reaches
  \<^verbatim>\<open>return None\<close>.  The \<^verbatim>\<open>except\<close> clause catches \<^verbatim>\<open>requests.RequestException\<close> only:
  any other exception leaves the function.
\<close>

fun fetch_loop :: "session \<Rightarrow> string \<Rightarrow> nat list \<Rightarrow> int \<Rightarrow> string option io" where
  "fetch_loop session url [] backoff = (Inr None, [])"
| "fetch_loop session url (attempt # rest) backoff =
     (case session url attempt of
        Response status_code text \<Rightarrow>
          if status_code = 200 then (Inr (Some text), [Get url 15])
          else if status_code = 403 \<or> status_code = 405 \<or> status_code = 429 then
            apsnd (\<lambda>evs. [Get url 15, Print (WarnBackoff status_code url backoff),
                           Sleep (of_int backoff)] @ evs)
              (fetch_loop session url rest (min (backoff * 2) 30))
          else (Inr None, [Get url 15, Print (ErrorUnexpectedStatus status_code url)])
      | Raises e \<Rightarrow>
          (case e of
             RequestException msg \<Rightarrow>
               apsnd (\<lambda>evs. [Get url 15, Print (ErrorException msg url (attempt + 1)),
                              Sleep (of_int backoff)] @ evs)
                 (fetch_loop session url rest (min (backoff * 2) 30))
           | _ \<Rightarrow> (Inl e, [Get url 15])))"

definition fetch_with_retries :: "session \<Rightarrow> string \<Rightarrow> string option io" where
  "fetch_with_retries session url = fetch_loop session url [0..<MAX_RETRIES] 1"

text \<open>The outcomes after which the loop goes on to its next iteration: the statuses
  403, 405 and 429, and a raised \<open>RequestException\<close>.\<close>

fun retryable :: "outcome \<Rightarrow> bool" where
  "retryable (Response status_code text) =
     (status_code = 403 \<or> status_code = 405 \<or> status_code = 429)"
| "retryable (Raises (RequestException msg)) = True"
| "retryable (Raises _) = False"

text \<open>An outcome the \<^verbatim>\<open>requests\<close> library can produce by its contract: a response, or
  a \<open>RequestException\<close>.\<close>

fun request_outcome :: "outcome \<Rightarrow> bool" where
  "request_outcome (Response status_code text) = True"
| "request_outcome (Raises (RequestException msg)) = True"
| "request_outcome (Raises _) = False"

section \<open>Parsed pages and the operations of the HTML library the script uses\<close>

text \<open>
  What \<^verbatim>\<open>BeautifulSoup(html, "html.parser")\<close> returns is a tree.  A tag has a name, the
  list of its classes (the parser stores the \<^verbatim>\<open>class\<close> attribute split at whitespace),
  its other attributes and its children; text is a \<open>NavigableString\<close>; a comment is kept
  apart, since \<^verbatim>\<open>.text\<close> and \<^verbatim>\<open>get_text\<close> leave comments out.  The parser itself is not
  modelled: it is a field of the runtime below, an arbitrary function from the page text
  to a tree.
\<close>

datatype node =
    NavigableString string
  | Comment string
  | Tag string "string list" "(string \<times> string) list" "node list"

text \<open>\<^verbatim>\<open>tag.descendants\<close>: all nodes below a tag, in document order.\<close>

fun descendants :: "node \<Rightarrow> node list" where
  "descendants (Tag name classes attrs contents) =
     concat (map (\<lambda>child. child # descendants child) contents)"
| "descendants _ = []"

text \<open>The filter of \<^verbatim>\<open>find(name, class_=c)\<close> and \<^verbatim>\<open>find_all(name, class_=c)\<close>: a tag of
  that name, one of whose classes is \<open>c\<close> when a class is asked for.\<close>

fun matches :: "string \<Rightarrow> string option \<Rightarrow> node \<Rightarrow> bool" where
  "matches name cls (Tag tag_name classes attrs contents) =
     (tag_name = name \<and> (case cls of None \<Rightarrow> True | Some c \<Rightarrow> c \<in> set classes))"
| "matches name cls _ = False"

definition find_all :: "string \<Rightarrow> string option \<Rightarrow> node \<Rightarrow> node list" where
  "find_all name cls tag = filter (matches name cls) (descendants tag)"

text \<open>\<^verbatim>\<open>tag.find(...)\<close>: the first match, or \<^verbatim>\<open>None\<close>.\<close>

definition find_tag :: "string \<Rightarrow> string option \<Rightarrow> node \<Rightarrow> node option" where
  "find_tag name cls tag = List.find (matches name cls) (descendants tag)"

text \<open>\<^verbatim>\<open>soup.select("div.wt-tree_item")\<close>: the CSS selector of a tag name and a class
  selects the same tags as \<^verbatim>\<open>find_all\<close> with that name and class, in document order.\<close>

definition select_tag_class :: "string \<Rightarrow> string \<Rightarrow> node \<Rightarrow> node list" where
  "select_tag_class name c tag = find_all name (Some c) tag"

text \<open>\<^verbatim>\<open>tag.get(key)\<close>: the attribute's value, or \<^verbatim>\<open>None\<close>.\<close>

fun get_attr :: "node \<Rightarrow> string \<Rightarrow> string option" where
  "get_attr (Tag name classes attrs contents) key = map_of attrs key"
| "get_attr _ key = None"

text \<open>\<^verbatim>\<open>str.isspace\<close>, \<^verbatim>\<open>str.isdigit\<close> and \<^verbatim>\<open>str.isdecimal\<close> on the code points below 256.
  The superscripts two, three and one (B2, B3, B9) are digits for \<^verbatim>\<open>isdigit\<close> but not
  decimal digits: \<^verbatim>\<open>int()\<close> rejects them.\<close>

definition isspace :: "char \<Rightarrow> bool" where
  "isspace c = (c \<in> {CHR 0x09, CHR 0x0A, CHR 0x0B, CHR 0x0C, CHR 0x0D, CHR 0x1C, CHR 0x1D,
                      CHR 0x1E, CHR 0x1F, CHR 0x20, CHR 0x85, CHR 0xA0})"

definition isdecimal :: "char \<Rightarrow> bool" where
  "isdecimal c = (c \<in> set ''0123456789'')"

definition isdigit :: "char \<Rightarrow> bool" where
  "isdigit c = (isdecimal c \<or> c \<in> {CHR 0xB2, CHR 0xB3, CHR 0xB9})"

text \<open>\<^verbatim>\<open>s.strip()\<close>: whitespace removed at both ends.\<close>

definition strip :: "string \<Rightarrow> string" where
  "strip s = rev (dropWhile isspace (rev (dropWhile isspace s)))"

fun string_of :: "node \<Rightarrow> string list" where
  "string_of (NavigableString s) = [s]"
| "string_of _ = []"

text \<open>The strings below a tag that \<^verbatim>\<open>.text\<close> and \<^verbatim>\<open>get_text\<close> join.\<close>

definition strings :: "node \<Rightarrow> string list" where
  "strings tag = concat (map string_of (descendants tag))"

text \<open>\<^verbatim>\<open>tag.text\<close>: the strings joined as they are.  \<^verbatim>\<open>tag.get_text(strip=True)\<close>: every
  string stripped, the empty ones dropped, the rest joined.\<close>

definition text_of :: "node \<Rightarrow> string" where
  "text_of tag = concat (strings tag)"

definition get_text_strip :: "node \<Rightarrow> string" where
  "get_text_strip tag = concat (filter (\<lambda>s. s \<noteq> []) (map strip (strings tag)))"

text \<open>
  The runtime the script runs on: the HTML parser, and the interpreter's limit on the
  number of digits \<^verbatim>\<open>int()\<close> converts (\<^verbatim>\<open>sys.get_int_max_str_digits()\<close>: 4300 by default
  since Python 3.11, and \<open>0\<close> for no limit, which is also the behaviour of the
  interpreters before).
\<close>

record runtime =
  BeautifulSoup :: "string \<Rightarrow> node"
  int_max_str_digits :: nat

definition digit_value :: "char \<Rightarrow> int" where
  "digit_value c = int (of_char c) - 48"

text \<open>\<^verbatim>\<open>int(s)\<close> for a string \<open>s\<close> of characters that satisfy \<^verbatim>\<open>str.isdigit\<close> (what the
  script passes): the decimal value, or a \<open>ValueError\<close> for the empty string, for a
  digit that is not decimal, and for more digits than the interpreter's limit.\<close>

definition int_of_digits :: "nat \<Rightarrow> string \<Rightarrow> exn + int" where
  "int_of_digits max_digits s =
     (if s = [] \<or> \<not> list_all isdecimal s then
        Inl (ValueError ''invalid literal for int() with base 10'')
      else if 0 < max_digits \<and> max_digits < length s then
        Inl (ValueError ''Exceeds the limit for integer string conversion'')
      else Inr (foldl (\<lambda>acc c. acc * 10 + digit_value c) 0 s))"

section \<open>The listing extractor\<close>

text \<open>The loop \<^verbatim>\<open>for div in unit_divs\<close> of \<^verbatim>\<open>get_unit_urls\<close>: the \<^verbatim>\<open>href\<close> of the first
  link of class \<^verbatim>\<open>wt-tree_item-link\<close> in each item, when there is one and it is not
  empty.\<close>

fun unit_hrefs :: "node list \<Rightarrow> string list" where
  "unit_hrefs [] = []"
| "unit_hrefs (elem # divs) =
     (case find_tag ''a'' (Some ''wt-tree_item-link'') elem of
        None \<Rightarrow> unit_hrefs divs
      | Some link \<Rightarrow>
          (case get_attr link ''href'' of
             None \<Rightarrow> unit_hrefs divs
           | Some href \<Rightarrow> if href \<noteq> [] then href # unit_hrefs divs else unit_hrefs divs))"

text \<open>\<^verbatim>\<open>get_unit_urls(session, tech_tree_path)\<close>.  \<^verbatim>\<open>if not html\<close> holds for \<^verbatim>\<open>None\<close> and
  for the empty string.\<close>

definition get_unit_urls :: "runtime \<Rightarrow> session \<Rightarrow> string \<Rightarrow> string list io" where
  "get_unit_urls rt session tech_tree_path =
     (let url = BASE_URL @ ''/'' @ tech_tree_path @ ''?v=t'';
          (html, evs) = fetch_with_retries session url;
          evs = Print (StepFetchingUnitUrls url) # evs
      in case html of
           Inl e \<Rightarrow> (Inl e, evs)
         | Inr None \<Rightarrow> (Inr [], evs @ [Print (ErrorTechTreePage url)])
         | Inr (Some page) \<Rightarrow>
             if page = [] then (Inr [], evs @ [Print (ErrorTechTreePage url)])
             else
               (let soup = BeautifulSoup rt page;
                    unit_divs = select_tag_class ''div'' ''wt-tree_item'' soup
                in (Inr (unit_hrefs unit_divs),
                    evs @ [Print (InfoFoundUnits (length unit_divs) tech_tree_path)])))"

section \<open>The detail extractor\<close>

text \<open>The \<^verbatim>\<open>try\<close> block that reads a value element: the stripped text without commas,
  its \<^verbatim>\<open>isdigit\<close> characters joined and converted; any exception of the conversion gives
  0.\<close>

definition cost_of_value :: "runtime \<Rightarrow> node \<Rightarrow> int" where
  "cost_of_value rt val_span =
     (let text = filter (\<lambda>c. c \<noteq> CHR '','') (get_text_strip val_span)
      in case int_of_digits (int_max_str_digits rt) (filter isdigit text) of
           Inl e \<Rightarrow> 0
         | Inr v \<Rightarrow> v)"

text \<open>The loop over the \<^verbatim>\<open>game-unit_chars-line\<close> elements: the first one whose header
  reads \<^verbatim>\<open>Talisman cost\<close> decides (\<^verbatim>\<open>break\<close>); \<^verbatim>\<open>talisman_cost\<close> stays 0 otherwise.\<close>

fun talisman_loop :: "runtime \<Rightarrow> node list \<Rightarrow> int" where
  "talisman_loop rt [] = 0"
| "talisman_loop rt (elem # divs) =
     (case find_tag ''span'' (Some ''game-unit_chars-header'') elem of
        None \<Rightarrow> talisman_loop rt divs
      | Some header \<Rightarrow>
          if strip (text_of header) = ''Talisman cost'' then
            (case find_tag ''span'' (Some ''game-unit_chars-value'') elem of
               None \<Rightarrow> 0
             | Some val_span \<Rightarrow> cost_of_value rt val_span)
          else talisman_loop rt divs)"

text \<open>The loop over the \<^verbatim>\<open>game-unit_chars-subline\<close> elements: the first one whose first
  \<^verbatim>\<open>span\<close> reads \<^verbatim>\<open>Aces\<close> decides.\<close>

fun aces_loop :: "runtime \<Rightarrow> node list \<Rightarrow> int" where
  "aces_loop rt [] = 0"
| "aces_loop rt (elem # divs) =
     (case find_tag ''span'' None elem of
        None \<Rightarrow> aces_loop rt divs
      | Some first_span \<Rightarrow>
          if strip (text_of first_span) = ''Aces'' then
            (case find_tag ''span'' (Some ''game-unit_chars-value'') elem of
               None \<Rightarrow> 0
             | Some val_span \<Rightarrow> cost_of_value rt val_span)
          else aces_loop rt divs)"

definition talisman_cost :: "runtime \<Rightarrow> node \<Rightarrow> int" where
  "talisman_cost rt soup =
     talisman_loop rt (find_all ''div'' (Some ''game-unit_chars-line'') soup)"

definition aces_cost :: "runtime \<Rightarrow> node \<Rightarrow> int" where
  "aces_cost rt soup =
     aces_loop rt (find_all ''div'' (Some ''game-unit_chars-subline'') soup)"

text \<open>\<^verbatim>\<open>extract_total_cost(session, unit_url, index, total_units)\<close>.\<close>

definition extract_total_cost :: "runtime \<Rightarrow> session \<Rightarrow> string \<Rightarrow> nat \<Rightarrow> nat \<Rightarrow> int io" where
  "extract_total_cost rt session unit_url index total_units =
     (let full_url = BASE_URL @ unit_url;
          (html, evs) = fetch_with_retries session full_url;
          evs = Sleep REQUEST_DELAY # evs
      in case html of
           Inl e \<Rightarrow> (Inl e, evs)
         | Inr None \<Rightarrow> (Inr 0, evs @ [Print (ErrorUnitPage full_url)])
         | Inr (Some page) \<Rightarrow>
             if page = [] then (Inr 0, evs @ [Print (ErrorUnitPage full_url)])
             else
               (let soup = BeautifulSoup rt page;
                    talisman = talisman_cost rt soup;
                    aces = aces_cost rt soup;
                    total = talisman + aces
                in (Inr total,
                    evs @ [Print (InfoProcessingUnit index total_units unit_url
                                    talisman aces total)])))"

section \<open>The orchestrator\<close>

text \<open>
  What the network does during one run: the outcome of the warm-up request, a session
  for the fetch of each tech tree page, and a session for the fetch of each submitted
  unit, by its position in the list of unit URLs.
\<close>

record network =
  homepage :: outcome
  tech_tree_session :: "string \<Rightarrow> session"
  unit_session :: "nat \<Rightarrow> session"

definition tech_trees :: "string list" where
  "tech_trees = [''aviation'', ''helicopters'', ''ground'', ''ships'', ''boats'']"

text \<open>The loop \<^verbatim>\<open>for tree in tech_trees\<close>: the lists are appended in order.\<close>

fun collect_unit_urls :: "runtime \<Rightarrow> (string \<Rightarrow> session) \<Rightarrow> string list \<Rightarrow> string list io" where
  "collect_unit_urls rt sessions [] = (Inr [], [])"
| "collect_unit_urls rt sessions (tree # trees) =
     (case get_unit_urls rt (sessions tree) tree of
        (Inl e, evs) \<Rightarrow> (Inl e, evs)
      | (Inr unit_urls, evs) \<Rightarrow>
          (case collect_unit_urls rt sessions trees of
             (Inl e, evs') \<Rightarrow> (Inl e, evs @ evs')
           | (Inr rest, evs') \<Rightarrow> (Inr (unit_urls @ rest), evs @ evs')))"

text \<open>A future of the executor: the number of the submitted call and what the call
  returned or raised.\<close>

datatype future = Future nat "exn + int"

fun result :: "future \<Rightarrow> exn + int" where
  "result (Future idx r) = r"

text \<open>
  The loop \<^verbatim>\<open>for future in as_completed(futures): total_cost += future.result()\<close>, run
  on the futures in the order in which \<^verbatim>\<open>as_completed\<close> yields them.  \<^verbatim>\<open>result()\<close> raises
  again what the call raised.  Beside the final value the function returns every value
  the variable \<^verbatim>\<open>total_cost\<close> takes, in order.
\<close>

fun accumulate :: "future list \<Rightarrow> int \<Rightarrow> (exn + int) \<times> int list" where
  "accumulate [] total_cost = (Inr total_cost, [total_cost])"
| "accumulate (f # fs) total_cost =
     (case result f of
        Inl e \<Rightarrow> (Inl e, [total_cost])
      | Inr cost \<Rightarrow> apsnd (\<lambda>h. total_cost # h) (accumulate fs (total_cost + cost)))"

text \<open>
  The \<^verbatim>\<open>with ThreadPoolExecutor(max_workers=...)\<close> block.  \<open>worker\<close> is the submitted
  callable (\<^verbatim>\<open>extract_total_cost\<close> in the script), called once per unit URL with that
  call's session, the URL, its 1-based index and the number of units.  The threads are
  not modelled: \<open>as_completed\<close> is the order in which the library yields the futures, a
  parameter, so that every pool size and every interleaving is some value of it.  The
  executor refuses a pool of no workers with a \<open>ValueError\<close>.
\<close>

definition run_pool ::
  "nat \<Rightarrow> (future list \<Rightarrow> future list) \<Rightarrow> (session \<Rightarrow> string \<Rightarrow> nat \<Rightarrow> nat \<Rightarrow> exn + int) \<Rightarrow>
   (nat \<Rightarrow> session) \<Rightarrow> string list \<Rightarrow> (exn + int) \<times> int list" where
  "run_pool max_workers as_completed worker sessions all_unit_urls =
     (if max_workers = 0 then (Inl (ValueError ''max_workers must be greater than 0''), [0])
      else
        (let total_units = length all_unit_urls;
             futures = map (\<lambda>(idx, url). Future idx (worker (sessions idx) url (idx + 1) total_units))
                         (enumerate 0 all_unit_urls)
         in accumulate (as_completed futures) 0))"

text \<open>
  \<^verbatim>\<open>main()\<close>.  The warm-up request is made outside any \<^verbatim>\<open>try\<close>.  The trace is that of the
  main thread: the events of the workers are not part of it.
\<close>

definition main :: "runtime \<Rightarrow> network \<Rightarrow> (future list \<Rightarrow> future list) \<Rightarrow> unit io" where
  "main rt net as_completed =
     (let evs = [Print StepInitializing, Get BASE_URL 10]
      in case homepage net of
           Raises e \<Rightarrow> (Inl e, evs)
         | Response status_code body \<Rightarrow>
             (let evs = evs @ (if status_code \<noteq> 200 then [Print (WarnHomepage status_code)] else [])
              in case collect_unit_urls rt (tech_tree_session net) tech_trees of
                   (Inl e, evs') \<Rightarrow> (Inl e, evs @ evs')
                 | (Inr all_unit_urls, evs') \<Rightarrow>
                     (let total_units = length all_unit_urls;
                          evs = evs @ evs' @ [Print (StepTotalUnits total_units)]
                      in case fst (run_pool CONCURRENT_WORKERS as_completed
                                     (\<lambda>session unit_url index total_units.
                                        fst (extract_total_cost rt session unit_url index total_units))
                                     (unit_session net) all_unit_urls) of
                           Inl e \<Rightarrow> (Inl e, evs)
                         | Inr total_cost \<Rightarrow> (Inr (), evs @ [Print (ResultTotal total_cost)]))))"

section \<open>The detail extractor and the totals, as specified\<close>

text \<open>The number a string of decimal digits denotes, most significant digit first.\<close>

primrec decimal_value :: "string \<Rightarrow> int" where
  "decimal_value [] = 0"
| "decimal_value (c # cs) = digit_value c * 10 ^ length cs + decimal_value cs"

text \<open>
  The detail extractor as the specification words it.  A value element's text is
  stripped of thousands separators and of the characters that are not digits, and parsed
  as an integer; there is no number when no digit is left or the digits do not parse.
\<close>

definition spec_number :: "nat \<Rightarrow> string \<Rightarrow> int option" where
  "spec_number max_digits txt =
     (let ds = filter isdigit (filter (\<lambda>c. c \<noteq> CHR '','') txt)
      in if ds \<noteq> [] \<and> list_all isdecimal ds \<and> (max_digits = 0 \<or> length ds \<le> max_digits)
         then Some (decimal_value ds) else None)"

text \<open>A field contributes its number, and 0 when the field is absent or its text does not
  parse.\<close>

definition spec_field_cost :: "runtime \<Rightarrow> node option \<Rightarrow> int" where
  "spec_field_cost rt field =
     (case field of
        None \<Rightarrow> 0
      | Some val_span \<Rightarrow>
          (case spec_number (int_max_str_digits rt) (get_text_strip val_span) of
             None \<Rightarrow> 0
           | Some n \<Rightarrow> n))"

text \<open>The two fields are located by a label: the value element of the first line whose
  header reads \<^verbatim>\<open>Talisman cost\<close>, and the value element of the first subline whose first
  \<^verbatim>\<open>span\<close> reads \<^verbatim>\<open>Aces\<close>.\<close>

definition is_talisman_line :: "node \<Rightarrow> bool" where
  "is_talisman_line elem =
     (case find_tag ''span'' (Some ''game-unit_chars-header'') elem of
        None \<Rightarrow> False
      | Some header \<Rightarrow> strip (text_of header) = ''Talisman cost'')"

definition is_aces_line :: "node \<Rightarrow> bool" where
  "is_aces_line elem =
     (case find_tag ''span'' None elem of
        None \<Rightarrow> False
      | Some first_span \<Rightarrow> strip (text_of first_span) = ''Aces'')"

definition spec_talisman_field :: "node \<Rightarrow> node option" where
  "spec_talisman_field soup =
     (case List.find is_talisman_line (find_all ''div'' (Some ''game-unit_chars-line'') soup) of
        None \<Rightarrow> None
      | Some elem \<Rightarrow> find_tag ''span'' (Some ''game-unit_chars-value'') elem)"

definition spec_aces_field :: "node \<Rightarrow> node option" where
  "spec_aces_field soup =
     (case List.find is_aces_line (find_all ''div'' (Some ''game-unit_chars-subline'') soup) of
        None \<Rightarrow> None
      | Some elem \<Rightarrow> find_tag ''span'' (Some ''game-unit_chars-value'') elem)"

text \<open>
  Example pages, as trees: a unit page with a talisman cost of 1,234 and no aces field,
  one with a talisman cost of 1,000 and an aces cost of 250, and one with neither field.
  \<open>cpython soup\<close> is a runtime with the default digit limit whose parser returns
  \<open>soup\<close>; \<open>serves page\<close> is a session that answers every request with status 200 and
  the body \<open>page\<close>.
\<close>

definition value_span :: "string \<Rightarrow> node" where
  "value_span s = Tag ''span'' [''game-unit_chars-value''] [] [NavigableString s]"

definition page_talisman :: node where
  "page_talisman = Tag ''[document]'' [] []
     [Tag ''div'' [''game-unit_chars-line''] []
        [Tag ''span'' [''game-unit_chars-header''] [] [NavigableString ''Talisman cost''],
         value_span ''1,234'']]"

definition page_both :: node where
  "page_both = Tag ''[document]'' [] []
     [Tag ''div'' [''game-unit_chars-line''] []
        [Tag ''span'' [''game-unit_chars-header''] [] [NavigableString ''Talisman cost''],
         value_span ''1,000''],
      Tag ''div'' [''game-unit_chars-subline''] []
        [Tag ''span'' [] [] [NavigableString ''Aces''],
         value_span ''250'']]"

definition page_neither :: node where
  "page_neither = Tag ''[document]'' [] []
     [Tag ''div'' [''game-unit_chars-line''] []
        [Tag ''span'' [''game-unit_chars-header''] [] [NavigableString ''Purchase''],
         value_span ''6,090'']]"

definition cpython :: "node \<Rightarrow> runtime" where
  "cpython soup = \<lparr>BeautifulSoup = (\<lambda>html. soup), int_max_str_digits = 4300\<rparr>"

definition serves :: "string \<Rightarrow> session" where
  "serves page = (\<lambda>url attempt. Response 200 page)"
text \<open>The CostFigure a future holds (0 for a future whose call raised).\<close>

definition cost_figure :: "future \<Rightarrow> int" where
  "cost_figure f = (case result f of Inl e \<Rightarrow> 0 | Inr cost \<Rightarrow> cost)"

section \<open>Auxiliary definitions for the proofs\<close>

text \<open>The values the local variable \<^verbatim>\<open>backoff\<close> takes in \<open>n\<close> successive
  iterations that sleep, starting from \<open>b\<close>: each is \<^verbatim>\<open>min(backoff * 2, 30)\<close> of the one
  before.\<close>

fun backoff_seq :: "int \<Rightarrow> nat \<Rightarrow> int list" where
  "backoff_seq b 0 = []"
| "backoff_seq b (Suc n) = b # backoff_seq (min (b * 2) 30) n"

(*DEFS_END*)

section \<open>Properties of the resilient fetcher\<close>

lemma sleeps_append: "sleeps (xs @ ys) = sleeps xs @ sleeps ys"
  by (induction xs rule: sleeps.induct) auto

lemma attempts_append: "attempts (xs @ ys) = attempts xs + attempts ys"
  by (simp add: attempts_def)

lemma attempts_Cons: "attempts (e # evs) = (if is_Get e then 1 else 0) + attempts evs"
  by (simp add: attempts_def)

lemma fetch_loop_all_retryable:
  "\<forall>a \<in> set ns. retryable (session url a) \<Longrightarrow>
   fst (fetch_loop session url ns b) = Inr None \<and>
   attempts (snd (fetch_loop session url ns b)) = length ns \<and>
   sleeps (snd (fetch_loop session url ns b)) = map of_int (backoff_seq b (length ns))"
  by (induction ns arbitrary: b)
     (auto simp: attempts_Cons attempts_def split: outcome.splits exn.splits)

lemma fetch_loop_first_success:
  "\<forall>a \<in> set pre. retryable (session url a) \<Longrightarrow> session url a = Response 200 body \<Longrightarrow>
   fst (fetch_loop session url (pre @ a # post) b) = Inr (Some body) \<and>
   attempts (snd (fetch_loop session url (pre @ a # post) b)) = Suc (length pre)"
  by (induction pre arbitrary: b)
     (auto simp: attempts_Cons attempts_def split: outcome.splits exn.splits)

lemma fetch_loop_sleeps:
  "\<exists>k \<le> length ns. sleeps (snd (fetch_loop session url ns b)) = map of_int (backoff_seq b k)"
proof (induction ns arbitrary: b)
  case Nil
  then show ?case by simp
next
  case (Cons a ns)
  obtain k where k: "k \<le> length ns"
    "sleeps (snd (fetch_loop session url ns (min (b * 2) 30))) = map of_int (backoff_seq (min (b * 2) 30) k)"
    using Cons.IH [of "min (b * 2) 30"] by blast
  have z: "([]::rat list) = map of_int (backoff_seq b 0)" by simp
  have s: "of_int b # map of_int (backoff_seq (min (b * 2) 30) k) = map rat_of_int (backoff_seq b (Suc k))"
    by simp
  show ?case
  proof (cases "session url a")
    case (Response status_code body)
    show ?thesis
    proof (cases "status_code = 403 \<or> status_code = 405 \<or> status_code = 429")
      case True
      then have "sleeps (snd (fetch_loop session url (a # ns) b)) = map of_int (backoff_seq b (Suc k))"
        using Response k(2) by auto
      with k(1) show ?thesis by (metis Suc_le_mono length_Cons)
    next
      case False
      then have "sleeps (snd (fetch_loop session url (a # ns) b)) = map of_int (backoff_seq b 0)"
        using Response by auto
      then show ?thesis by blast
    qed
  next
    case (Raises e)
    show ?thesis
    proof (cases e)
      case (RequestException msg)
      then have "sleeps (snd (fetch_loop session url (a # ns) b)) = map of_int (backoff_seq b (Suc k))"
        using Raises k(2) by auto
      with k(1) show ?thesis by (metis Suc_le_mono length_Cons)
    next
      case (ValueError x)
      then have "sleeps (snd (fetch_loop session url (a # ns) b)) = map of_int (backoff_seq b 0)"
        using Raises by auto
      then show ?thesis by blast
    next
      case (OtherException x)
      then have "sleeps (snd (fetch_loop session url (a # ns) b)) = map of_int (backoff_seq b 0)"
        using Raises by auto
      then show ?thesis by blast
    qed
  qed
qed

lemma fetch_loop_returns:
  "\<forall>a \<in> set ns. request_outcome (session url a) \<Longrightarrow>
   \<exists>r. fst (fetch_loop session url ns b) = Inr r"
  by (induction ns arbitrary: b) (auto split: outcome.splits exn.splits)

lemma fetch_loop_attempts_le:
  "attempts (snd (fetch_loop session url ns b)) \<le> length ns"
  by (induction ns arbitrary: b)
     (auto simp: attempts_Cons attempts_def split: outcome.splits exn.splits)


lemma fetch_loop_content:
  "fst (fetch_loop session url ns b) = Inr (Some body) \<Longrightarrow>
   \<exists>a \<in> set ns. session url a = Response 200 body"
  by (induction ns arbitrary: b) (auto split: outcome.splits exn.splits if_splits)

lemma backoff_seq_length: "length (backoff_seq b n) = n"
  by (induction n arbitrary: b) auto

lemma backoff_seq_le: "b \<le> 30 \<Longrightarrow> \<forall>d \<in> set (backoff_seq b n). d \<le> 30"
proof (induction n arbitrary: b)
  case 0
  then show ?case by simp
next
  case (Suc n)
  have "min (b * 2) 30 \<le> (30::int)" by simp
  from Suc.IH [OF this] Suc.prems show ?case by simp
qed

lemma backoff_seq_step:
  "Suc i < n \<Longrightarrow> backoff_seq b n ! Suc i = min (backoff_seq b n ! i * 2) 30"
proof (induction n arbitrary: b i)
  case 0
  then show ?case by simp
next
  case (Suc n)
  show ?case
  proof (cases i)
    case 0
    with Suc.prems obtain m where "n = Suc m" by (cases n) auto
    with 0 show ?thesis by simp
  next
    case (Suc j)
    with Suc.prems have "Suc j < n" by simp
    from Suc.IH [OF this] Suc show ?thesis by simp
  qed
qed

lemma backoff_seq_take: "k \<le> n \<Longrightarrow> take k (backoff_seq b n) = backoff_seq b k"
proof (induction k arbitrary: b n)
  case 0
  then show ?case by simp
next
  case (Suc k)
  then obtain m where "n = Suc m" "k \<le> m" by (cases n) auto
  with Suc.IH show ?case by simp
qed

lemma backoff_seq_5: "backoff_seq 1 5 = [1, 2, 4, 8, 16]"
  by (simp add: eval_nat_numeral)

lemma upt_5: "[0..<5] = [0, 1, 2, 3, 4]"
  by (simp add: upt_rec)

lemma upt_split: "m < n \<Longrightarrow> [0..<n] = [0..<m] @ m # [Suc m..<n]"
proof -
  assume "m < n"
  then have "[0..<m + (n - m)] = [0..<m] @ [m..<m + (n - m)]"
    by (intro upt_add_eq_append) simp
  with \<open>m < n\<close> show ?thesis by (simp add: upt_conv_Cons)
qed

text \<open>
  Claim C3.  If every one of the \<open>MAX_RETRIES\<close> attempts ends in a retryable failure
  (status 403, 405 or 429, or a \<open>RequestException\<close>), the fetcher makes exactly
  \<open>MAX_RETRIES\<close> requests and returns \<open>None\<close>.  If the \<open>n\<close>-th attempt
  (\<open>1 \<le> n \<le> MAX_RETRIES\<close>) answers with status 200, the attempts before it having
  failed in a retryable way (otherwise the fetcher never makes an \<open>n\<close>-th attempt),
  the fetcher returns the body of that response and makes exactly \<open>n\<close> requests.
\<close>

theorem fetch_attempt_counts:
  "((\<forall>i<MAX_RETRIES. retryable (session url i)) \<longrightarrow>
      fst (fetch_with_retries session url) = Inr None \<and>
      attempts (snd (fetch_with_retries session url)) = MAX_RETRIES) \<and>
   (\<forall>n body. 1 \<le> n \<and> n \<le> MAX_RETRIES \<and> (\<forall>i<n - 1. retryable (session url i)) \<and>
        session url (n - 1) = Response 200 body \<longrightarrow>
      fst (fetch_with_retries session url) = Inr (Some body) \<and>
      attempts (snd (fetch_with_retries session url)) = n)"
proof (intro conjI allI impI)
  assume "\<forall>i<MAX_RETRIES. retryable (session url i)"
  then have all: "\<forall>a \<in> set [0..<MAX_RETRIES]. retryable (session url a)" by simp
  from all fetch_loop_all_retryable
    [where ns = "[0..<MAX_RETRIES]" and session = session and url = url and b = 1]
  show "fst (fetch_with_retries session url) = Inr None"
    and "attempts (snd (fetch_with_retries session url)) = MAX_RETRIES"
    by (simp_all add: fetch_with_retries_def)
next
  fix n body
  assume h: "1 \<le> n \<and> n \<le> MAX_RETRIES \<and> (\<forall>i<n - 1. retryable (session url i)) \<and>
        session url (n - 1) = Response 200 body"
  then have pre: "\<forall>a \<in> set [0..<n - 1]. retryable (session url a)"
    and ok: "session url (n - 1) = Response 200 body" by simp_all
  from h have "n - 1 < MAX_RETRIES" by linarith
  then have split: "[0..<MAX_RETRIES] = [0..<n - 1] @ (n - 1) # [Suc (n - 1)..<MAX_RETRIES]"
    by (rule upt_split)
  from pre ok h fetch_loop_first_success
    [where pre = "[0..<n - 1]" and session = session and url = url and a = "n - 1"
       and body = body and post = "[Suc (n - 1)..<MAX_RETRIES]" and b = 1]
  show "fst (fetch_with_retries session url) = Inr (Some body)"
    and "attempts (snd (fetch_with_retries session url)) = n"
    unfolding fetch_with_retries_def split by simp_all
qed

text \<open>
  The statement at two sessions: one that always answers 429, and one that times out
  twice and then answers 200.
\<close>

theorem fetch_attempt_counts_witness:
  "fst (fetch_with_retries (\<lambda>u i. Response 429 ''slow down'') ''u'') = Inr None \<and>
   attempts (snd (fetch_with_retries (\<lambda>u i. Response 429 ''slow down'') ''u'')) = 5 \<and>
   fst (fetch_with_retries
          (\<lambda>u i. if i < 2 then Raises (RequestException ''timeout'') else Response 200 ''ok'')
          ''u'') = Inr (Some ''ok'') \<and>
   attempts (snd (fetch_with_retries
          (\<lambda>u i. if i < 2 then Raises (RequestException ''timeout'') else Response 200 ''ok'')
          ''u'')) = 3"
proof -
  have a: "fst (fetch_with_retries (\<lambda>u i. Response 429 ''slow down'') ''u'') = Inr None \<and>
     attempts (snd (fetch_with_retries (\<lambda>u i. Response 429 ''slow down'') ''u'')) = 5"
    using fetch_attempt_counts [of "\<lambda>u i. Response 429 ''slow down''" "''u''"]
    by (simp add: MAX_RETRIES_def)
  have b: "fst (fetch_with_retries
          (\<lambda>u i. if i < 2 then Raises (RequestException ''timeout'') else Response 200 ''ok'')
          ''u'') = Inr (Some ''ok'') \<and>
     attempts (snd (fetch_with_retries
          (\<lambda>u i. if i < 2 then Raises (RequestException ''timeout'') else Response 200 ''ok'')
          ''u'')) = 3"
    using fetch_attempt_counts
      [of "\<lambda>u i. if i < 2 then Raises (RequestException ''timeout'') else Response 200 ''ok''"
          "''u''", THEN conjunct2, rule_format, of 3 "''ok''"]
    by (simp add: MAX_RETRIES_def)
  from a b show ?thesis by simp
qed

text \<open>
  Claim C4.  When the first attempt answers with a status other than 200, 403, 405 and
  429, the fetcher returns \<open>None\<close> after exactly one request: its whole trace is that
  request and the error line, with no sleep and no further request.
\<close>

theorem unexpected_status_one_attempt:
  "session url 0 = Response status_code body \<Longrightarrow>
   status_code \<notin> {200, 403, 405, 429} \<Longrightarrow>
   fetch_with_retries session url =
     (Inr None, [Get url 15, Print (ErrorUnexpectedStatus status_code url)]) \<and>
   attempts (snd (fetch_with_retries session url)) = 1 \<and>
   sleeps (snd (fetch_with_retries session url)) = []"
  by (simp add: fetch_with_retries_def MAX_RETRIES_def upt_5 attempts_def)

text \<open>
  The statement at a session whose first answer is a 500.
\<close>

theorem unexpected_status_one_attempt_witness:
  "fetch_with_retries (\<lambda>u i. if i = 0 then Response 500 ''oops'' else Response 200 ''ok'') ''u'' =
     (Inr None, [Get ''u'' 15, Print (ErrorUnexpectedStatus 500 ''u'')]) \<and>
   attempts (snd (fetch_with_retries
     (\<lambda>u i. if i = 0 then Response 500 ''oops'' else Response 200 ''ok'') ''u'')) = 1 \<and>
   sleeps (snd (fetch_with_retries
     (\<lambda>u i. if i = 0 then Response 500 ''oops'' else Response 200 ''ok'') ''u'')) = []"
proof -
  have "(\<lambda>u i. if i = 0 then Response 500 ''oops'' else Response 200 ''ok'') ''u'' (0::nat) =
          Response 500 ''oops''"
    by simp
  moreover have "(500::int) \<notin> {200, 403, 405, 429}" by simp
  ultimately show ?thesis by (rule unexpected_status_one_attempt)
qed

lemma fetch_loop_prefix_sleeps:
  "\<forall>a \<in> set pre. retryable (session url a) \<Longrightarrow>
   take (length pre) (sleeps (snd (fetch_loop session url (pre @ post) b))) =
     map of_int (backoff_seq b (length pre))"
  by (induction pre arbitrary: b) (auto split: outcome.splits exn.splits)

lemma backoff_seq_pow2: "n \<le> 5 \<Longrightarrow> map rat_of_int (backoff_seq 1 n) = map (\<lambda>i. 2 ^ i) [0..<n]"
proof -
  assume "n \<le> 5"
  then have "n = 0 \<or> n = 1 \<or> n = 2 \<or> n = 3 \<or> n = 4 \<or> n = 5" by linarith
  then show ?thesis by (elim disjE) (simp_all add: eval_nat_numeral)
qed

lemma fetch_loop_sleeps_step:
  fixes s :: "rat list"
  assumes "s = sleeps (snd (fetch_loop session url ns b))" and "b \<le> 30"
  shows "(s \<noteq> [] \<longrightarrow> s ! 0 = of_int b) \<and>
         (\<forall>i. Suc i < length s \<longrightarrow> s ! Suc i = min (s ! i * 2) 30) \<and>
         (\<forall>d \<in> set s. d \<le> 30) \<and> length s \<le> length ns"
proof -
  obtain k where k: "k \<le> length ns" "s = map of_int (backoff_seq b k)"
    using fetch_loop_sleeps [of ns session url b] assms(1) by blast
  have len: "length s = k" by (simp add: k(2) backoff_seq_length)
  have hd: "s \<noteq> [] \<longrightarrow> s ! 0 = of_int b"
    using k(2) by (cases k) auto
  have step: "\<forall>i. Suc i < length s \<longrightarrow> s ! Suc i = min (s ! i * 2) 30"
  proof (intro allI impI)
    fix i assume "Suc i < length s"
    then have i: "Suc i < k" using len by simp
    then have "s ! Suc i = of_int (min (backoff_seq b k ! i * 2) 30)"
      by (simp add: k(2) backoff_seq_length backoff_seq_step)
    also have "\<dots> = min (s ! i * 2) 30"
      using i by (simp add: k(2) backoff_seq_length of_int_min)
    finally show "s ! Suc i = min (s ! i * 2) 30" .
  qed
  have le: "\<forall>d \<in> set s. d \<le> 30"
    using backoff_seq_le [OF assms(2), of k] by (auto simp: k(2))
  from hd step le len k(1) show ?thesis by simp
qed

lemma fetch_sleeps_prefix:
  "\<exists>k \<le> 5. sleeps (snd (fetch_with_retries session url)) = take k [1, 2, 4, 8, 16]"
proof -
  obtain k where k: "k \<le> length [0..<MAX_RETRIES]"
    "sleeps (snd (fetch_with_retries session url)) = map of_int (backoff_seq 1 k)"
    unfolding fetch_with_retries_def using fetch_loop_sleeps [of "[0..<MAX_RETRIES]" session url 1]
    by blast
  then have k5: "k \<le> 5" by (simp add: MAX_RETRIES_def)
  then have "backoff_seq 1 k = take k [1, 2, 4, 8, 16]"
    using backoff_seq_take [of k 5 1] by (simp add: backoff_seq_5)
  then have "map rat_of_int (backoff_seq 1 k) = take k [1, 2, 4, 8, 16]"
    by (simp add: take_map [symmetric])
  with k(2) k5 show ?thesis by auto
qed

text \<open>
  Claim C5.  The delays slept by the retry loop start at the initial backoff 1; each
  later delay is twice the one before, capped at the ceiling 30, and no delay exceeds 30:
  this holds for the loop over any number of attempts.  For the fetcher as configured
  (\<open>MAX_RETRIES\<close> attempts) each later delay is exactly twice the one before, and a run
  of \<open>k\<close> consecutive retryable failures sleeps the delays \<open>1, 2, \<dots>, 2 ^ (k - 1)\<close>.
\<close>

theorem backoff_delays_double:
  "(\<forall>ns (s :: rat list). s = sleeps (snd (fetch_loop session url ns 1)) \<longrightarrow>
      (s \<noteq> [] \<longrightarrow> s ! 0 = 1) \<and>
      (\<forall>i. Suc i < length s \<longrightarrow> s ! Suc i = min (s ! i * 2) 30) \<and>
      (\<forall>d \<in> set s. d \<le> 30)) \<and>
   (\<forall>s. s = sleeps (snd (fetch_with_retries session url)) \<longrightarrow>
      (\<forall>i. Suc i < length s \<longrightarrow> s ! Suc i = s ! i * 2) \<and>
      (\<forall>d \<in> set s. d \<le> 30) \<and>
      (\<forall>k \<le> MAX_RETRIES. (\<forall>i<k. retryable (session url i)) \<longrightarrow>
         take k s = map (\<lambda>i. 2 ^ i) [0..<k]))"
proof (intro conjI allI impI)
  fix ns and s :: "rat list"
  assume s: "s = sleeps (snd (fetch_loop session url ns 1))"
  from fetch_loop_sleeps_step [OF s]
  show "s \<noteq> [] \<Longrightarrow> s ! 0 = 1" and "\<forall>d \<in> set s. d \<le> 30" by simp_all
  fix i assume "Suc i < length s"
  with fetch_loop_sleeps_step [OF s] show "s ! Suc i = min (s ! i * 2) 30" by simp
next
  fix s :: "rat list"
  assume s: "s = sleeps (snd (fetch_with_retries session url))"
  obtain k where k: "k \<le> 5" "s = take k [1, 2, 4, 8, 16]"
    using fetch_sleeps_prefix [of session url] s by blast
  show "\<forall>d \<in> set s. d \<le> 30"
    using k(2) by (auto dest!: in_set_takeD)
  {
    fix i assume "Suc i < length s"
    then have "Suc i < k" "Suc i < 5" using k by simp_all
    then have "i = 0 \<or> i = 1 \<or> i = 2 \<or> i = 3" by linarith
    with \<open>Suc i < k\<close> show "s ! Suc i = s ! i * 2"
      using k(2) by auto
  }
  fix n
  assume n: "n \<le> MAX_RETRIES" and r: "\<forall>i<n. retryable (session url i)"
  have split: "[0..<MAX_RETRIES] = [0..<n] @ [n..<MAX_RETRIES]"
    using n by (metis le0 le_add_diff_inverse upt_add_eq_append)
  have "take n s = map of_int (backoff_seq 1 n)"
    using fetch_loop_prefix_sleeps [where pre = "[0..<n]" and session = session and url = url
        and post = "[n..<MAX_RETRIES]" and b = 1] r
    by (simp add: s fetch_with_retries_def split)
  also have "\<dots> = map (\<lambda>i. 2 ^ i) [0..<n]"
    using n by (intro backoff_seq_pow2) (simp add: MAX_RETRIES_def)
  finally show "take n s = map (\<lambda>i. 2 ^ i) [0..<n]" .
qed

text \<open>
  The statement at a session that always answers 429, and, for the cap, at a loop of
  seven attempts that all time out.
\<close>

theorem backoff_delays_double_witness:
  "take 5 (sleeps (snd (fetch_with_retries (\<lambda>u i. Response 429 ''slow down'') ''u''))) =
     [1, 2, 4, 8, 16] \<and>
   sleeps (snd (fetch_loop (\<lambda>u i. Raises (RequestException ''timeout'')) ''u'' [0..<7] 1)) ! 6 = 30"
proof -
  let ?s = "\<lambda>u i. Response 429 ''slow down''"
  have "take 5 (sleeps (snd (fetch_with_retries ?s ''u''))) = map (\<lambda>i. 2 ^ i) [0..<5]"
    using backoff_delays_double [of ?s "''u''", THEN conjunct2, rule_format, OF refl,
        THEN conjunct2, THEN conjunct2, rule_format, of 5]
    by (simp add: MAX_RETRIES_def)
  then have a: "take 5 (sleeps (snd (fetch_with_retries ?s ''u''))) = [1, 2, 4, 8, 16]"
    by (simp add: upt_rec)
  define S where
    "S = sleeps (snd (fetch_loop (\<lambda>u i. Raises (RequestException ''timeout'')) ''u'' [0..<7] 1))"
  have len: "length S = 7" and five: "S ! 5 = 30"
    unfolding S_def by (simp_all add: upt_rec)
  have step: "\<forall>i. Suc i < length S \<longrightarrow> S ! Suc i = min (S ! i * 2) 30"
    unfolding S_def
    using backoff_delays_double [of "\<lambda>u i. Raises (RequestException ''timeout'')" "''u''"]
    by blast
  have "Suc 5 < length S" using len by simp
  with step have "S ! Suc 5 = min (S ! 5 * 2) 30" by blast
  then have "S ! 6 = 30" using five by simp
  then have b: "sleeps (snd (fetch_loop (\<lambda>u i. Raises (RequestException ''timeout''))
      ''u'' [0..<7] 1)) ! 6 = 30"
    unfolding S_def .
  from a b show ?thesis by simp
qed

text \<open>
  Claim C8.  For every URL and every session whose requests end the way the
  \<^verbatim>\<open>requests\<close> library lets them (a response with any status, or a
  \<open>RequestException\<close>, also on every attempt), the fetcher returns normally: its value is
  \<open>None\<close> or the body of a response with status 200, after at most \<open>MAX_RETRIES\<close>
  requests.  No exception leaves it.
\<close>

theorem fetch_never_raises:
  "(\<forall>i<MAX_RETRIES. request_outcome (session url i)) \<Longrightarrow>
   (fst (fetch_with_retries session url) = Inr None \<or>
    (\<exists>i<MAX_RETRIES. \<exists>body. session url i = Response 200 body \<and>
       fst (fetch_with_retries session url) = Inr (Some body))) \<and>
   attempts (snd (fetch_with_retries session url)) \<le> MAX_RETRIES"
proof -
  assume "\<forall>i<MAX_RETRIES. request_outcome (session url i)"
  then have "\<forall>a \<in> set [0..<MAX_RETRIES]. request_outcome (session url a)" by simp
  from this fetch_loop_returns
    [where ns = "[0..<MAX_RETRIES]" and session = session and url = url and b = 1]
  obtain r where r: "fst (fetch_with_retries session url) = Inr r"
    by (auto simp: fetch_with_retries_def)
  have "r = None \<or> (\<exists>i<MAX_RETRIES. \<exists>body. session url i = Response 200 body \<and> r = Some body)"
  proof (cases r)
    case None
    then show ?thesis by simp
  next
    case (Some body)
    with r have "fst (fetch_loop session url [0..<MAX_RETRIES] 1) = Inr (Some body)"
      by (simp add: fetch_with_retries_def)
    from fetch_loop_content [OF this] Some show ?thesis by auto
  qed
  moreover have "attempts (snd (fetch_with_retries session url)) \<le> MAX_RETRIES"
    using fetch_loop_attempts_le [of session url "[0..<MAX_RETRIES]" 1]
    by (simp add: fetch_with_retries_def)
  ultimately show ?thesis using r by auto
qed

text \<open>
  The statement at a session whose every request raises a connection error.
\<close>

theorem fetch_never_raises_witness:
  "fetch_with_retries (\<lambda>u i. Raises (RequestException ''connection reset'')) ''u'' =
     (Inr None,
      [Get ''u'' 15, Print (ErrorException ''connection reset'' ''u'' 1), Sleep 1,
       Get ''u'' 15, Print (ErrorException ''connection reset'' ''u'' 2), Sleep 2,
       Get ''u'' 15, Print (ErrorException ''connection reset'' ''u'' 3), Sleep 4,
       Get ''u'' 15, Print (ErrorException ''connection reset'' ''u'' 4), Sleep 8,
       Get ''u'' 15, Print (ErrorException ''connection reset'' ''u'' 5), Sleep 16]) \<and>
   attempts (snd (fetch_with_retries
     (\<lambda>u i. Raises (RequestException ''connection reset'')) ''u'')) \<le> MAX_RETRIES"
  using fetch_never_raises [of "\<lambda>u i. Raises (RequestException ''connection reset'')" "''u''"]
  by (simp add: fetch_with_retries_def MAX_RETRIES_def upt_5)


section \<open>Properties of the extractors\<close>

lemma foldl_decimal:
  "foldl (\<lambda>acc c. acc * 10 + digit_value c) a ds = a * 10 ^ length ds + decimal_value ds"
  by (induction ds arbitrary: a) (simp_all add: algebra_simps)

lemma digit_value_nonneg: "isdecimal c \<Longrightarrow> 0 \<le> digit_value c"
  by (auto simp: isdecimal_def digit_value_def)

lemma decimal_value_nonneg: "list_all isdecimal ds \<Longrightarrow> 0 \<le> decimal_value ds"
  by (induction ds) (auto simp: digit_value_nonneg)

lemma cost_of_value_spec:
  "cost_of_value rt val_span = spec_field_cost rt (Some val_span)"
  by (auto simp: cost_of_value_def spec_field_cost_def spec_number_def int_of_digits_def
      foldl_decimal Let_def)

lemma cost_of_value_nonneg: "0 \<le> cost_of_value rt val_span"
  by (auto simp: cost_of_value_def int_of_digits_def foldl_decimal decimal_value_nonneg Let_def)

lemma talisman_loop_spec:
  "talisman_loop rt divs =
     spec_field_cost rt (case List.find is_talisman_line divs of
        None \<Rightarrow> None
      | Some elem \<Rightarrow> find_tag ''span'' (Some ''game-unit_chars-value'') elem)"
  by (induction divs)
     (auto simp: is_talisman_line_def cost_of_value_spec spec_field_cost_def split: option.splits)

lemma aces_loop_spec:
  "aces_loop rt divs =
     spec_field_cost rt (case List.find is_aces_line divs of
        None \<Rightarrow> None
      | Some elem \<Rightarrow> find_tag ''span'' (Some ''game-unit_chars-value'') elem)"
  by (induction divs)
     (auto simp: is_aces_line_def cost_of_value_spec spec_field_cost_def split: option.splits)

lemma talisman_loop_nonneg: "0 \<le> talisman_loop rt divs"
  by (induction divs) (auto simp: cost_of_value_nonneg split: option.splits)

lemma aces_loop_nonneg: "0 \<le> aces_loop rt divs"
  by (induction divs) (auto simp: cost_of_value_nonneg split: option.splits)

lemma extract_total_cost_fetched:
  "fetch_with_retries session (BASE_URL @ unit_url) = (Inr (Some page), evs) \<Longrightarrow> page \<noteq> [] \<Longrightarrow>
   fst (extract_total_cost rt session unit_url index total_units) =
     Inr (talisman_cost rt (BeautifulSoup rt page) + aces_cost rt (BeautifulSoup rt page))"
  by (simp add: extract_total_cost_def Let_def)

lemma extract_total_cost_nonneg:
  "fst (extract_total_cost rt session unit_url index total_units) = Inr c \<Longrightarrow> 0 \<le> c"
  by (auto simp: extract_total_cost_def Let_def talisman_cost_def aces_cost_def
      talisman_loop_nonneg aces_loop_nonneg add_nonneg_nonneg
      split: prod.splits sum.splits option.splits if_splits)

lemma fetch_serves: "fetch_with_retries (serves page) url = (Inr (Some page), [Get url 15])"
  by (simp add: fetch_with_retries_def serves_def MAX_RETRIES_def upt_rec)

text \<open>
  Claim C6.  When the fetch of a unit page succeeds with a non-empty page,
  \<^verbatim>\<open>extract_total_cost\<close> returns the sum of the two optional fields as the specification
  words them: each field contributes the integer left after commas and non-digit
  characters are stripped from its value text, and 0 when the field is absent or its text
  does not parse.  On a page with a talisman cost of 1,234 and no aces field it returns
  1234; with a talisman cost of 1,000 and an aces cost of 250 it returns 1250; with
  neither field it returns 0.
\<close>

theorem extract_cost_sums_fields:
  "(\<forall>page. fst (fetch_with_retries session (BASE_URL @ unit_url)) = Inr (Some page) \<and> page \<noteq> [] \<longrightarrow>
      fst (extract_total_cost rt session unit_url index total_units) =
        Inr (spec_field_cost rt (spec_talisman_field (BeautifulSoup rt page)) +
             spec_field_cost rt (spec_aces_field (BeautifulSoup rt page)))) \<and>
   fst (extract_total_cost (cpython page_talisman) (serves ''<html>'') ''/unit/a'' 1 1) = Inr 1234 \<and>
   fst (extract_total_cost (cpython page_both) (serves ''<html>'') ''/unit/a'' 1 1) = Inr 1250 \<and>
   fst (extract_total_cost (cpython page_neither) (serves ''<html>'') ''/unit/a'' 1 1) = Inr 0"
proof (intro conjI allI impI)
  fix page
  assume h: "fst (fetch_with_retries session (BASE_URL @ unit_url)) = Inr (Some page) \<and> page \<noteq> []"
  then obtain evs where "fetch_with_retries session (BASE_URL @ unit_url) = (Inr (Some page), evs)"
    by (cases "fetch_with_retries session (BASE_URL @ unit_url)") simp
  from extract_total_cost_fetched [OF this] h
  show "fst (extract_total_cost rt session unit_url index total_units) =
        Inr (spec_field_cost rt (spec_talisman_field (BeautifulSoup rt page)) +
             spec_field_cost rt (spec_aces_field (BeautifulSoup rt page)))"
    by (simp add: talisman_cost_def aces_cost_def talisman_loop_spec aces_loop_spec
        spec_talisman_field_def spec_aces_field_def)
next
  show "fst (extract_total_cost (cpython page_talisman) (serves ''<html>'') ''/unit/a'' 1 1) = Inr 1234"
    by (simp add: extract_total_cost_def fetch_serves cpython_def value_span_def
      page_talisman_def talisman_cost_def aces_cost_def find_all_def find_tag_def cost_of_value_def
      get_text_strip_def strings_def strip_def isspace_def isdigit_def isdecimal_def int_of_digits_def
      digit_value_def text_of_def)
next
  show "fst (extract_total_cost (cpython page_both) (serves ''<html>'') ''/unit/a'' 1 1) = Inr 1250"
    by (simp add: extract_total_cost_def fetch_serves cpython_def value_span_def
      page_both_def talisman_cost_def aces_cost_def find_all_def find_tag_def cost_of_value_def
      get_text_strip_def strings_def strip_def isspace_def isdigit_def isdecimal_def int_of_digits_def
      digit_value_def text_of_def)
next
  show "fst (extract_total_cost (cpython page_neither) (serves ''<html>'') ''/unit/a'' 1 1) = Inr 0"
    by (simp add: extract_total_cost_def fetch_serves cpython_def value_span_def
      page_neither_def talisman_cost_def aces_cost_def find_all_def find_tag_def cost_of_value_def
      get_text_strip_def strings_def strip_def isspace_def isdigit_def isdecimal_def int_of_digits_def
      digit_value_def text_of_def)
qed


text \<open>
  The statement at the page with both fields: the fetch succeeds, and the two fields as
  the specification words them add up to 1250.
\<close>

theorem extract_cost_sums_fields_witness:
  "fst (fetch_with_retries (serves ''<html>'') (BASE_URL @ ''/unit/a'')) = Inr (Some ''<html>'') \<and>
   ''<html>'' \<noteq> [] \<and>
   spec_field_cost (cpython page_both) (spec_talisman_field page_both) = 1000 \<and>
   spec_field_cost (cpython page_both) (spec_aces_field page_both) = 250 \<and>
   fst (extract_total_cost (cpython page_both) (serves ''<html>'') ''/unit/a'' 7 9) = Inr 1250"
proof -
  have f: "fst (fetch_with_retries (serves ''<html>'') (BASE_URL @ ''/unit/a'')) =
      Inr (Some ''<html>'') \<and> ''<html>'' \<noteq> []"
    by (simp add: fetch_serves)
  have t: "spec_field_cost (cpython page_both) (spec_talisman_field page_both) = 1000"
    by (simp add: spec_field_cost_def spec_talisman_field_def is_talisman_line_def spec_number_def
        cpython_def page_both_def value_span_def find_all_def find_tag_def get_text_strip_def
        strings_def strip_def text_of_def isspace_def isdigit_def isdecimal_def digit_value_def)
  have a: "spec_field_cost (cpython page_both) (spec_aces_field page_both) = 250"
    by (simp add: spec_field_cost_def spec_aces_field_def is_aces_line_def spec_number_def
        cpython_def page_both_def value_span_def find_all_def find_tag_def get_text_strip_def
        strings_def strip_def text_of_def isspace_def isdigit_def isdecimal_def digit_value_def)
  have b: "BeautifulSoup (cpython page_both) ''<html>'' = page_both"
    by (simp add: cpython_def)
  from extract_cost_sums_fields [where session = "serves ''<html>''" and unit_url = "''/unit/a''"
      and rt = "cpython page_both" and index = 7 and total_units = 9, THEN conjunct1,
      rule_format, OF f]
  have "fst (extract_total_cost (cpython page_both) (serves ''<html>'') ''/unit/a'' 7 9) = Inr 1250"
    unfolding b t a by simp
  with f t a show ?thesis by simp
qed

text \<open>
  Claim C7.  When the fetcher returns \<open>None\<close>, \<^verbatim>\<open>get_unit_urls\<close> returns the empty
  list, having printed the error line, and the loop over the tech trees goes on with the
  remaining trees; \<^verbatim>\<open>extract_total_cost\<close> returns 0, having printed the error line.
  Neither raises.
\<close>

theorem unavailable_absorbed:
  "(fst (fetch_with_retries session (BASE_URL @ ''/'' @ tech_tree_path @ ''?v=t'')) = Inr None \<longrightarrow>
      get_unit_urls rt session tech_tree_path =
        (Inr [],
         Print (StepFetchingUnitUrls (BASE_URL @ ''/'' @ tech_tree_path @ ''?v=t'')) #
         snd (fetch_with_retries session (BASE_URL @ ''/'' @ tech_tree_path @ ''?v=t'')) @
         [Print (ErrorTechTreePage (BASE_URL @ ''/'' @ tech_tree_path @ ''?v=t''))])) \<and>
   (fst (fetch_with_retries (sessions tree) (BASE_URL @ ''/'' @ tree @ ''?v=t'')) = Inr None \<longrightarrow>
      fst (collect_unit_urls rt sessions (tree # trees)) =
      fst (collect_unit_urls rt sessions trees)) \<and>
   (fst (fetch_with_retries session (BASE_URL @ unit_url)) = Inr None \<longrightarrow>
      extract_total_cost rt session unit_url index total_units =
        (Inr 0,
         Sleep REQUEST_DELAY # snd (fetch_with_retries session (BASE_URL @ unit_url)) @
         [Print (ErrorUnitPage (BASE_URL @ unit_url))]))"
  by (auto simp: get_unit_urls_def extract_total_cost_def Let_def
      split: prod.splits sum.splits option.splits)

text \<open>
  Claim C10.  When the fetcher returns the empty string (a success status with an empty
  body), \<^verbatim>\<open>get_unit_urls\<close> returns the empty list and \<^verbatim>\<open>extract_total_cost\<close> returns 0,
  with the same error line as for \<open>None\<close>: both test \<^verbatim>\<open>if not html\<close>.
\<close>

theorem empty_content_like_unavailable:
  "(fst (fetch_with_retries session (BASE_URL @ ''/'' @ tech_tree_path @ ''?v=t'')) = Inr (Some []) \<longrightarrow>
      get_unit_urls rt session tech_tree_path =
        (Inr [],
         Print (StepFetchingUnitUrls (BASE_URL @ ''/'' @ tech_tree_path @ ''?v=t'')) #
         snd (fetch_with_retries session (BASE_URL @ ''/'' @ tech_tree_path @ ''?v=t'')) @
         [Print (ErrorTechTreePage (BASE_URL @ ''/'' @ tech_tree_path @ ''?v=t''))])) \<and>
   (fst (fetch_with_retries session (BASE_URL @ unit_url)) = Inr (Some []) \<longrightarrow>
      extract_total_cost rt session unit_url index total_units =
        (Inr 0,
         Sleep REQUEST_DELAY # snd (fetch_with_retries session (BASE_URL @ unit_url)) @
         [Print (ErrorUnitPage (BASE_URL @ unit_url))]))"
  by (auto simp: get_unit_urls_def extract_total_cost_def Let_def
      split: prod.splits sum.splits option.splits)

lemma accumulate_all_values:
  "\<forall>f \<in> set fs. \<exists>c. result f = Inr c \<Longrightarrow>
   fst (accumulate fs t) = Inr (t + sum_list (map cost_figure fs)) \<and>
   length (snd (accumulate fs t)) = Suc (length fs) \<and>
   hd (snd (accumulate fs t)) = t \<and>
   last (snd (accumulate fs t)) = t + sum_list (map cost_figure fs)"
proof (induction fs arbitrary: t)
  case Nil
  then show ?case by simp
next
  case (Cons f fs)
  then obtain c where c: "result f = Inr c" by auto
  from Cons.prems have "\<forall>f \<in> set fs. \<exists>c. result f = Inr c" by simp
  note IH = Cons.IH [OF this, of "t + c"]
  have ne: "snd (accumulate fs (t + c)) \<noteq> []"
    using IH by (metis length_0_conv nat.distinct(1))
  from IH c ne show ?case by (simp add: cost_figure_def)
qed

lemma accumulate_sorted:
  "\<forall>f \<in> set fs. \<exists>c. result f = Inr c \<and> 0 \<le> c \<Longrightarrow>
   sorted (snd (accumulate fs t)) \<and> (\<forall>x \<in> set (snd (accumulate fs t)). t \<le> x)"
proof (induction fs arbitrary: t)
  case Nil
  then show ?case by simp
next
  case (Cons f fs)
  then obtain c where c: "result f = Inr c" "0 \<le> c" by auto
  from Cons.prems have "\<forall>f \<in> set fs. \<exists>c. result f = Inr c \<and> 0 \<le> c" by simp
  note IH = Cons.IH [OF this, of "t + c"]
  from IH c show ?case by (fastforce)
qed

lemma sum_list_cost_perm:
  "mset fs = mset gs \<Longrightarrow> sum_list (map cost_figure fs) = sum_list (map cost_figure gs)"
proof -
  assume "mset fs = mset gs"
  then have "mset (map cost_figure fs) = mset (map cost_figure gs)" by simp
  then show ?thesis by (metis sum_mset_sum_list)
qed

text \<open>
  The statement at a session that answers every request with a 404, for which the fetcher
  returns \<open>None\<close>.
\<close>

theorem unavailable_absorbed_witness:
  "fst (fetch_with_retries (\<lambda>u i. Response 404 []) (BASE_URL @ ''/'' @ ''aviation'' @ ''?v=t'')) =
     Inr None \<and>
   fst (get_unit_urls (cpython page_neither) (\<lambda>u i. Response 404 []) ''aviation'') = Inr [] \<and>
   fst (collect_unit_urls (cpython page_neither) (\<lambda>t u i. Response 404 []) [''aviation'']) =
     Inr [] \<and>
   fst (fetch_with_retries (\<lambda>u i. Response 404 []) (BASE_URL @ ''/unit/a'')) = Inr None \<and>
   fst (extract_total_cost (cpython page_neither) (\<lambda>u i. Response 404 []) ''/unit/a'' 1 1) = Inr 0"
proof -
  have h: "fst (fetch_with_retries (\<lambda>u i. Response 404 []) url) = Inr None" for url
    by (simp add: fetch_with_retries_def MAX_RETRIES_def upt_rec)
  note t = unavailable_absorbed [where session = "\<lambda>u i. Response 404 []"
      and sessions = "\<lambda>t u i. Response 404 []"
      and rt = "cpython page_neither" and tech_tree_path = "''aviation''" and tree = "''aviation''"
      and trees = "[]" and unit_url = "''/unit/a''" and index = 1 and total_units = 1]
  from t h have "fst (get_unit_urls (cpython page_neither) (\<lambda>u i. Response 404 []) ''aviation'') = Inr []"
    by simp
  moreover from t h
  have "fst (collect_unit_urls (cpython page_neither) (\<lambda>t u i. Response 404 []) [''aviation'']) =
      fst (collect_unit_urls (cpython page_neither) (\<lambda>t u i. Response 404 []) [])"
    by blast
  moreover from t h
  have "fst (extract_total_cost (cpython page_neither) (\<lambda>u i. Response 404 []) ''/unit/a'' 1 1) = Inr 0"
    by simp
  ultimately show ?thesis using h by simp
qed

text \<open>
  The statement at a session that answers every request with status 200 and an empty
  body.
\<close>

theorem empty_content_like_unavailable_witness:
  "fst (fetch_with_retries (serves []) (BASE_URL @ ''/'' @ ''aviation'' @ ''?v=t'')) =
     Inr (Some []) \<and>
   fst (get_unit_urls (cpython page_talisman) (serves []) ''aviation'') = Inr [] \<and>
   fst (fetch_with_retries (serves []) (BASE_URL @ ''/unit/a'')) = Inr (Some []) \<and>
   extract_total_cost (cpython page_talisman) (serves []) ''/unit/a'' 1 1 =
     (Inr 0, [Sleep REQUEST_DELAY, Get (BASE_URL @ ''/unit/a'') 15,
              Print (ErrorUnitPage (BASE_URL @ ''/unit/a''))])"
proof -
  note t = empty_content_like_unavailable [where session = "serves []"
      and rt = "cpython page_talisman" and tech_tree_path = "''aviation''"
      and unit_url = "''/unit/a''" and index = 1 and total_units = 1]
  from t have "fst (get_unit_urls (cpython page_talisman) (serves []) ''aviation'') = Inr []"
    by (simp add: fetch_serves)
  moreover from t
  have "extract_total_cost (cpython page_talisman) (serves []) ''/unit/a'' 1 1 =
     (Inr 0, [Sleep REQUEST_DELAY, Get (BASE_URL @ ''/unit/a'') 15,
              Print (ErrorUnitPage (BASE_URL @ ''/unit/a''))])"
    by (simp add: fetch_serves)
  ultimately show ?thesis by (simp add: fetch_serves)
qed

end
